theory Spec2Isabelle
  imports Complex_Main "HOL-Library.Multiset"
begin

section \<open>Data model (src/types.ts)\<close>

datatype TransactionType = INCOME | EXPENSE

datatype PaymentMethod = CASH_DEBIT | CREDIT_CARD

datatype User = STEFFANY | JEAN

datatype TransactionStatus = PENDING | COMPLETED

text \<open>
  A JavaScript \<^verbatim>\<open>Date\<close> is modelled by the local calendar fields its getters return:
  \<^verbatim>\<open>getFullYear()\<close>, \<^verbatim>\<open>getMonth()\<close> (0 = January .. 11 = December), \<^verbatim>\<open>getDate()\<close>
  (day of the month, from 1) and the milliseconds elapsed since local midnight.
  The program stores dates as ISO strings (\<^verbatim>\<open>toISOString\<close>) and reads them back with
  \<^verbatim>\<open>parseISO\<close>; this round trip denotes the same instant, so a stored date string is
  modelled by the \<open>Date\<close> it denotes. The model covers well-formed date strings (what the
  form's date input and \<^verbatim>\<open>toISOString\<close> produce) in one fixed time zone; the
  \<^verbatim>\<open>Invalid Date\<close> value and the finite range of JavaScript time values are outside it.
\<close>

record Date =
  getFullYear :: int
  getMonth :: int
  getDate :: int
  timeOfDay :: nat

record CreditCard =
  id_card :: string
  name_card :: string
  limit_card :: real
  closingDay :: int
  dueDay :: int
  last4Digits :: "string option"

record Installments =
  current :: int
  total_inst :: int
  originalTransactionId :: "string option"

text \<open>
  Amounts are JavaScript numbers; they are modelled as real numbers, so \<open>/\<close> below is
  exact division where the program performs one floating-point division.
\<close>

record Transaction =
  id_tx :: string
  description :: string
  amount :: real
  type_tx :: TransactionType
  status :: TransactionStatus
  date :: Date
  purchaseDate :: "Date option"
  user :: User
  paymentMethod :: PaymentMethod
  categoryId :: "string option"
  accountId :: "string option"
  cardId :: "string option"
  installments :: "Installments option"

section \<open>Calendar operations used by the program\<close>

definition isLeapYear :: "int \<Rightarrow> bool" where
  "isLeapYear y = ((y mod 4 = 0 \<and> y mod 100 \<noteq> 0) \<or> y mod 400 = 0)"

definition daysInMonth :: "int \<Rightarrow> int \<Rightarrow> int" where
  "daysInMonth y m =
     (if m = 1 then (if isLeapYear y then 29 else 28)
      else if m = 3 \<or> m = 5 \<or> m = 8 \<or> m = 10 then 30
      else 31)"

text \<open>Months are counted from year 0: month index \<open>k\<close> is month \<open>k mod 12\<close> of year \<open>k div 12\<close>.\<close>

definition monthIndex :: "Date \<Rightarrow> int" where
  "monthIndex d = getFullYear d * 12 + getMonth d"

definition daysInMonthIndex :: "int \<Rightarrow> int" where
  "daysInMonthIndex k = daysInMonth (k div 12) (k mod 12)"

text \<open>
  \<^verbatim>\<open>new Date(year, month, day)\<close> accepts any day number and normalises it: day
  \<open>daysInMonth + 1\<close> is the first day of the following month, day 0 the last day of the
  preceding one, and so on. \<open>rollForward\<close> and \<open>rollBack\<close> carry the excess days over.
\<close>

function rollForward :: "int \<Rightarrow> int \<Rightarrow> int \<times> int" where
  "rollForward k d =
     (if daysInMonthIndex k < d then rollForward (k + 1) (d - daysInMonthIndex k) else (k, d))"
  by pat_completeness auto
termination
  by (relation "measure (\<lambda>(k, d). nat d)")
     (auto simp: daysInMonthIndex_def daysInMonth_def split: if_splits)

function rollBack :: "int \<Rightarrow> int \<Rightarrow> int \<times> int" where
  "rollBack k d =
     (if d < 1 then rollBack (k - 1) (d + daysInMonthIndex (k - 1)) else (k, d))"
  by pat_completeness auto
termination
  by (relation "measure (\<lambda>(k, d). nat (1 - d))")
     (auto simp: daysInMonthIndex_def daysInMonth_def split: if_splits)

declare rollForward.simps [simp del] rollBack.simps [simp del]

text \<open>
  \<^verbatim>\<open>new Date(y, m, d)\<close>: local midnight of the normalised date. A year between 0 and 99
  means 1900 + year (the constructor's two-digit-year rule); a month outside 0..11 carries
  into the year.
\<close>

definition newDate :: "int \<Rightarrow> int \<Rightarrow> int \<Rightarrow> Date" where
  "newDate y m d =
     (let y0 = (if 0 \<le> y \<and> y \<le> 99 then 1900 + y else y);
          k = y0 * 12 + m;
          (k', d') = (if d < 1 then rollBack k d else rollForward k d)
      in \<lparr>getFullYear = k' div 12, getMonth = k' mod 12, getDate = d', timeOfDay = 0\<rparr>)"

text \<open>
  date-fns \<^verbatim>\<open>addMonths(date, amount)\<close>: amount 0 returns the date; otherwise the month is
  moved by \<open>amount\<close> and the day of the month is kept unless the target month is shorter,
  in which case the last day of the target month is taken. The time of day is kept.
\<close>

definition addMonths :: "Date \<Rightarrow> int \<Rightarrow> Date" where
  "addMonths d n =
     (if n = 0 then d
      else let k = monthIndex d + n
           in \<lparr>getFullYear = k div 12, getMonth = k mod 12,
               getDate = min (getDate d) (daysInMonthIndex k), timeOfDay = timeOfDay d\<rparr>)"

text \<open>date-fns \<^verbatim>\<open>startOfMonth\<close> and \<^verbatim>\<open>isSameMonth\<close>.\<close>

definition startOfMonth :: "Date \<Rightarrow> Date" where
  "startOfMonth d = d\<lparr>getDate := 1, timeOfDay := 0\<rparr>"

definition isSameMonth :: "Date \<Rightarrow> Date \<Rightarrow> bool" where
  "isSameMonth a b = (getFullYear a = getFullYear b \<and> getMonth a = getMonth b)"

text \<open>A date as the getters of a real \<^verbatim>\<open>Date\<close> report it.\<close>

definition calendarDate :: "Date \<Rightarrow> bool" where
  "calendarDate d =
     (0 \<le> getMonth d \<and> getMonth d \<le> 11 \<and> 1 \<le> getDate d
      \<and> getDate d \<le> daysInMonth (getFullYear d) (getMonth d) \<and> timeOfDay d < 86400000)"

section \<open>Application state and the creation form's request\<close>

record BankAccount =
  id_account :: string
  name_account :: string
  initialBalance :: real
  currentBalance :: real

record Category =
  id_category :: string
  name_category :: string
  color :: "string option"
  type_category :: TransactionType

record AppData =
  transactions :: "Transaction list"
  cards :: "CreditCard list"
  accounts :: "BankAccount list"
  categories :: "Category list"

text \<open>
  The argument of \<^verbatim>\<open>handleSaveTransaction\<close>: a \<^verbatim>\<open>Partial<Transaction>\<close> extended with
  \<^verbatim>\<open>installmentCount\<close>, \<^verbatim>\<open>isTotalValue\<close> and \<^verbatim>\<open>targetInvoiceDate\<close>. Every field may be
  absent (\<open>None\<close>). For the two date strings \<open>None\<close> also stands for the empty string,
  which the handler's truthiness tests treat like an absent value.
\<close>

record FormData =
  fd_type :: "TransactionType option"
  fd_description :: "string option"
  fd_amount :: "real option"
  fd_date :: "Date option"
  fd_status :: "TransactionStatus option"
  fd_categoryId :: "string option"
  fd_paymentMethod :: "PaymentMethod option"
  fd_cardId :: "string option"
  fd_accountId :: "string option"
  fd_installmentCount :: "int option"
  fd_isTotalValue :: "bool option"
  fd_targetInvoiceDate :: "Date option"

text \<open>JavaScript truthiness of an optional string: absent and \<^verbatim>\<open>''\<close> are falsy.\<close>

definition truthy :: "string option \<Rightarrow> bool" where
  "truthy s = (case s of None \<Rightarrow> False | Some x \<Rightarrow> x \<noteq> [])"

text \<open>Decimal rendering of an integer inside a template literal.\<close>

fun showNat :: "nat \<Rightarrow> string" where
  "showNat n =
     (if n < 10 then [''0123456789'' ! n]
      else showNat (n div 10) @ [''0123456789'' ! (n mod 10)])"

declare showNat.simps [simp del]

definition showInt :: "int \<Rightarrow> string" where
  "showInt i = (if i < 0 then CHR ''-'' # showNat (nat (- i)) else showNat (nat i))"

text \<open>\<^verbatim>\<open>`${txBase.description}`\<close>: an absent description renders as \<^verbatim>\<open>undefined\<close>.\<close>

definition template :: "string option \<Rightarrow> string" where
  "template s = (case s of None \<Rightarrow> ''undefined'' | Some x \<Rightarrow> x)"

section \<open>The installment materializer (\<^verbatim>\<open>handleSaveTransaction\<close>, Add mode)\<close>

text \<open>
  Lines 251 to 257: without an invoice override the purchase date is moved one month
  ahead when its day of the month has reached the card's closing day.
\<close>

definition invoiceMonthDate :: "int \<Rightarrow> Date \<Rightarrow> Date" where
  "invoiceMonthDate closing purchase =
     (let txDay = getDate purchase
      in if txDay \<ge> closing then addMonths purchase 1 else purchase)"

text \<open>Lines 244 to 259: the starting invoice date, on the card's due day.\<close>

definition startInvoiceDate :: "CreditCard \<Rightarrow> Date option \<Rightarrow> Date \<Rightarrow> Date" where
  "startInvoiceDate crd target purchase =
     (case target of
        Some selectedMonth \<Rightarrow>
          newDate (getFullYear selectedMonth) (getMonth selectedMonth) (dueDay crd)
      | None \<Rightarrow>
          (let s = invoiceMonthDate (closingDay crd) purchase
           in newDate (getFullYear s) (getMonth s) (dueDay crd)))"

text \<open>Lines 264 and 265: the due date of installment \<open>i\<close> (counted from 0).\<close>

definition dueDate :: "CreditCard \<Rightarrow> Date \<Rightarrow> int \<Rightarrow> Date" where
  "dueDate crd start i =
     (let targetMonth = addMonths start i
      in newDate (getFullYear targetMonth) (getMonth targetMonth) (dueDay crd))"

text \<open>
  Lines 267 to 284: the record pushed in iteration \<open>i\<close>. The function \<open>uuidv4\<close> lists the
  values that the successive calls of \<^verbatim>\<open>uuidv4()\<close> return during this run of the handler,
  and \<open>k\<close> counts the calls made before this iteration. The object literal evaluates
  \<^verbatim>\<open>id\<close> first and \<^verbatim>\<open>originalTransactionId\<close> afterwards.
\<close>

definition installment ::
  "(nat \<Rightarrow> string) \<Rightarrow> FormData \<Rightarrow> CreditCard \<Rightarrow> Date \<Rightarrow> Date \<Rightarrow> real \<Rightarrow> User
     \<Rightarrow> TransactionStatus \<Rightarrow> int \<Rightarrow> int \<Rightarrow> nat \<Rightarrow> Transaction" where
  "installment uuidv4 txBase crd start purchase monthlyAmount txUser txStatus installmentCount i k =
     \<lparr>id_tx = uuidv4 k,
      description =
        (if installmentCount > 1
         then template (fd_description txBase) @ '' ('' @ showInt (i + 1) @ ''/''
                @ showInt installmentCount @ '')''
         else template (fd_description txBase)),
      amount = monthlyAmount,
      type_tx = EXPENSE,
      status = txStatus,
      date = dueDate crd start i,
      purchaseDate = Some purchase,
      user = txUser,
      paymentMethod = CREDIT_CARD,
      categoryId = fd_categoryId txBase,
      accountId = None,
      cardId = fd_cardId txBase,
      installments = Some
        \<lparr>current = i + 1, total_inst = installmentCount,
         originalTransactionId = (if i = 0 then Some (uuidv4 (k + 1)) else None)\<rparr>\<rparr>"

text \<open>
  The loop of line 263, \<^verbatim>\<open>for (let i = 0; i < installmentCount; i++)\<close>, pushing \<open>mk i k\<close>
  onto the array. Iteration 0 calls \<^verbatim>\<open>uuidv4()\<close> twice, every other iteration once.
\<close>

function pushInstallments ::
  "(int \<Rightarrow> nat \<Rightarrow> Transaction) \<Rightarrow> int \<Rightarrow> int \<Rightarrow> nat \<Rightarrow> Transaction list \<Rightarrow> Transaction list" where
  "pushInstallments mk installmentCount i k acc =
     (if i < installmentCount
      then pushInstallments mk installmentCount (i + 1) (k + (if i = 0 then 2 else 1)) (acc @ [mk i k])
      else acc)"
  by pat_completeness auto
termination
  by (relation "measure (\<lambda>(mk, installmentCount, i, k, acc). nat (installmentCount - i))") auto

declare pushInstallments.simps [simp del]

text \<open>Lines 289 to 301: the single record of the cash/debit branch.\<close>

definition cashTransaction ::
  "(nat \<Rightarrow> string) \<Rightarrow> FormData \<Rightarrow> Date \<Rightarrow> real \<Rightarrow> User \<Rightarrow> TransactionStatus \<Rightarrow> Transaction" where
  "cashTransaction uuidv4 txBase purchase baseAmount txUser txStatus =
     \<lparr>id_tx = uuidv4 0,
      description = (case fd_description txBase of None \<Rightarrow> [] | Some x \<Rightarrow> x),
      amount = baseAmount,
      type_tx = (case fd_type txBase of None \<Rightarrow> EXPENSE | Some t \<Rightarrow> t),
      status = txStatus,
      date = purchase,
      purchaseDate = Some purchase,
      user = txUser,
      paymentMethod = CASH_DEBIT,
      categoryId = fd_categoryId txBase,
      accountId = fd_accountId txBase,
      cardId = None,
      installments = None\<rparr>"

text \<open>
  Lines 232 to 238 and 261: the destructuring defaults and the derived locals. \<open>now\<close>
  is the value of \<^verbatim>\<open>new Date()\<close>, read when the request carries no date;
  \<open>currentUser\<close> is the logged-in profile.
\<close>

definition installmentCount_of :: "FormData \<Rightarrow> int" where
  "installmentCount_of formData =
     (case fd_installmentCount formData of None \<Rightarrow> 1 | Some n \<Rightarrow> n)"

definition isTotalValue_of :: "FormData \<Rightarrow> bool" where
  "isTotalValue_of formData =
     (case fd_isTotalValue formData of None \<Rightarrow> True | Some b \<Rightarrow> b)"

definition baseAmount_of :: "FormData \<Rightarrow> real" where
  "baseAmount_of formData = (case fd_amount formData of None \<Rightarrow> 0 | Some a \<Rightarrow> a)"

definition purchaseDate_of :: "Date \<Rightarrow> FormData \<Rightarrow> Date" where
  "purchaseDate_of now formData = (case fd_date formData of None \<Rightarrow> now | Some d \<Rightarrow> d)"

definition txUser_of :: "User option \<Rightarrow> User" where
  "txUser_of currentUser = (case currentUser of None \<Rightarrow> STEFFANY | Some u \<Rightarrow> u)"

definition txStatus_of :: "FormData \<Rightarrow> TransactionStatus" where
  "txStatus_of formData = (case fd_status formData of None \<Rightarrow> COMPLETED | Some s \<Rightarrow> s)"

definition monthlyAmount_of :: "FormData \<Rightarrow> real" where
  "monthlyAmount_of formData =
     (if isTotalValue_of formData
      then baseAmount_of formData / of_int (installmentCount_of formData)
      else baseAmount_of formData)"

text \<open>Lines 234 to 302: the array \<^verbatim>\<open>transactionsToAdd\<close>.\<close>

definition transactionsToAdd ::
  "(nat \<Rightarrow> string) \<Rightarrow> Date \<Rightarrow> User option \<Rightarrow> CreditCard list \<Rightarrow> FormData \<Rightarrow> Transaction list" where
  "transactionsToAdd uuidv4 now currentUser cs formData =
     (let installmentCount = installmentCount_of formData;
          baseAmount = baseAmount_of formData;
          purchase = purchaseDate_of now formData;
          txUser = txUser_of currentUser;
          txStatus = txStatus_of formData
      in if fd_paymentMethod formData = Some CREDIT_CARD \<and> truthy (fd_cardId formData)
         then (case find (\<lambda>c. Some (id_card c) = fd_cardId formData) cs of
                 None \<Rightarrow> []
               | Some crd \<Rightarrow>
                   (let start = startInvoiceDate crd (fd_targetInvoiceDate formData) purchase;
                        monthlyAmount = monthlyAmount_of formData
                    in pushInstallments
                         (installment uuidv4 formData crd start purchase monthlyAmount
                            txUser txStatus installmentCount)
                         installmentCount 0 0 []))
         else [cashTransaction uuidv4 formData purchase baseAmount txUser txStatus])"

text \<open>
  Lines 304 to 307: the new ledger. This is the handler's Add mode, taken when no
  transaction with an id is being edited.
\<close>

definition handleSaveTransaction ::
  "(nat \<Rightarrow> string) \<Rightarrow> Date \<Rightarrow> User option \<Rightarrow> AppData \<Rightarrow> FormData \<Rightarrow> AppData" where
  "handleSaveTransaction uuidv4 now currentUser prev formData =
     prev\<lparr>transactions :=
            transactions prev @ transactionsToAdd uuidv4 now currentUser (cards prev) formData\<rparr>"

section \<open>The creation form (\<^verbatim>\<open>TransactionForm\<close>)\<close>

text \<open>
  The form's state. The date field holds \<^verbatim>\<open>''\<close> or a \<^verbatim>\<open>yyyy-MM-dd\<close> string and
  \<^verbatim>\<open>targetInvoiceDate\<close> holds \<^verbatim>\<open>''\<close> or an ISO string: each is modelled by the date it
  parses to, \<open>None\<close> for the empty string. \<open>f_initialData\<close> tells whether the form was
  opened with initial data.
\<close>

record FormState =
  f_type :: TransactionType
  f_description :: string
  f_amount :: string
  f_date :: "Date option"
  f_paymentMethod :: PaymentMethod
  f_status :: TransactionStatus
  f_cardId :: string
  f_accountId :: string
  f_categoryId :: string
  f_installments :: int
  f_isTotalValue :: bool
  f_targetInvoiceDate :: "Date option"
  f_initialData :: bool

text \<open>
  Lines 1084 to 1106: the three candidate invoice months offered by the form, the
  first being the calculated one.
\<close>

definition invoiceOptions :: "CreditCard list \<Rightarrow> FormState \<Rightarrow> Date list" where
  "invoiceOptions cs f =
     (if f_paymentMethod f \<noteq> CREDIT_CARD \<or> f_cardId f = [] then []
      else case find (\<lambda>c. id_card c = f_cardId f) cs of
             None \<Rightarrow> []
           | Some crd \<Rightarrow>
               (case f_date f of
                  None \<Rightarrow> []
                | Some purchase \<Rightarrow>
                    (let purchaseDay = getDate purchase;
                         closing = closingDay crd;
                         baseMonth = (if purchaseDay \<ge> closing
                                      then addMonths (startOfMonth purchase) 1
                                      else startOfMonth purchase)
                     in [baseMonth, addMonths baseMonth 1, addMonths baseMonth 2])))"

text \<open>
  Lines 1114 to 1137: \<^verbatim>\<open>handleSubmit\<close>. \<open>None\<close> is an early return, where \<^verbatim>\<open>onSubmit\<close>
  is not called. \<open>parseFloat\<close> gives \<open>None\<close> for \<^verbatim>\<open>NaN\<close>, which the handler's
  \<^verbatim>\<open>txBase.amount || 0\<close> treats like an absent amount.
\<close>

definition handleSubmit :: "(string \<Rightarrow> real option) \<Rightarrow> FormState \<Rightarrow> FormData option" where
  "handleSubmit parseFloat f =
     (if f_amount f = [] \<or> f_description f = [] then None
      else if f_type f = EXPENSE \<and> f_paymentMethod f = CREDIT_CARD \<and> f_cardId f = [] then None
      else Some
        \<lparr>fd_type = Some (f_type f),
         fd_description = Some (f_description f),
         fd_amount = parseFloat (f_amount f),
         fd_date = f_date f,
         fd_status = Some (f_status f),
         fd_categoryId = (if f_categoryId f = [] then None else Some (f_categoryId f)),
         fd_paymentMethod = Some (if f_type f = INCOME then CASH_DEBIT else f_paymentMethod f),
         fd_cardId = (if f_type f = EXPENSE \<and> f_paymentMethod f = CREDIT_CARD
                      then Some (f_cardId f) else None),
         fd_accountId = (if f_type f = INCOME \<or> f_paymentMethod f = CASH_DEBIT
                         then Some (f_accountId f) else None),
         fd_installmentCount = Some (if \<not> f_initialData f \<and> f_paymentMethod f = CREDIT_CARD
                                     then f_installments f else 1),
         fd_isTotalValue = Some (f_isTotalValue f),
         fd_targetInvoiceDate = (if f_type f = EXPENSE \<and> f_paymentMethod f = CREDIT_CARD
                                 then f_targetInvoiceDate f else None)\<rparr>)"

section \<open>Ledger views and status toggling\<close>

text \<open>
  \<^verbatim>\<open>getTime()\<close>: milliseconds since 1970-01-01, in the model's single time zone. The day
  number is the usual civil-calendar count with the year starting in March.
\<close>

definition daysFromEpoch :: "Date \<Rightarrow> int" where
  "daysFromEpoch d =
     (let m = getMonth d + 1;
          y = (if m \<le> 2 then getFullYear d - 1 else getFullYear d);
          era = y div 400;
          yoe = y - era * 400;
          doy = (153 * (if m > 2 then m - 3 else m + 9) + 2) div 5 + getDate d - 1;
          doe = yoe * 365 + yoe div 4 - yoe div 100 + doy
      in era * 146097 + doe - 719468)"

definition getTime :: "Date \<Rightarrow> int" where
  "getTime d = daysFromEpoch d * 86400000 + int (timeOfDay d)"

text \<open>
  Lines 178 to 182: the transactions whose accounting date lies in the month of
  \<open>currentDate\<close>, latest first (\<^verbatim>\<open>Array.prototype.sort\<close> is stable, as \<open>sort_key\<close> is).
\<close>

definition currentMonthTransactions :: "Transaction list \<Rightarrow> Date \<Rightarrow> Transaction list" where
  "currentMonthTransactions ts currentDate =
     sort_key (\<lambda>t. - getTime (date t)) (filter (\<lambda>t. isSameMonth (date t) currentDate) ts)"

text \<open>Lines 184 to 208: the four running sums and the summary built from them.\<close>

record SummarySums =
  incomeReal_sum :: real
  expenseReal_sum :: real
  incomeProjected_sum :: real
  expenseProjected_sum :: real

record Summary =
  incomeReal :: real
  expenseReal :: real
  balanceReal :: real
  balanceProjected :: real

definition summaryStep :: "Transaction \<Rightarrow> SummarySums \<Rightarrow> SummarySums" where
  "summaryStep t s =
     (let s1 = (if type_tx t = INCOME
                then s\<lparr>incomeProjected_sum := incomeProjected_sum s + amount t\<rparr>
                else s\<lparr>expenseProjected_sum := expenseProjected_sum s + amount t\<rparr>)
      in if status t = COMPLETED
         then (if type_tx t = INCOME
               then s1\<lparr>incomeReal_sum := incomeReal_sum s1 + amount t\<rparr>
               else s1\<lparr>expenseReal_sum := expenseReal_sum s1 + amount t\<rparr>)
         else s1)"

definition summarySums :: "Transaction list \<Rightarrow> Date \<Rightarrow> SummarySums" where
  "summarySums ts currentDate =
     fold summaryStep (currentMonthTransactions ts currentDate)
       \<lparr>incomeReal_sum = 0, expenseReal_sum = 0,
        incomeProjected_sum = 0, expenseProjected_sum = 0\<rparr>"

definition summary :: "Transaction list \<Rightarrow> Date \<Rightarrow> Summary" where
  "summary ts currentDate =
     (let s = summarySums ts currentDate
      in \<lparr>incomeReal = incomeReal_sum s,
          expenseReal = expenseReal_sum s,
          balanceReal = incomeReal_sum s - expenseReal_sum s,
          balanceProjected = incomeProjected_sum s - expenseProjected_sum s\<rparr>)"

text \<open>Lines 326 to 335: \<^verbatim>\<open>handleToggleStatus\<close>.\<close>

definition toggled :: "TransactionStatus \<Rightarrow> TransactionStatus" where
  "toggled s = (if s = PENDING then COMPLETED else PENDING)"

definition handleToggleStatus :: "string \<Rightarrow> AppData \<Rightarrow> AppData" where
  "handleToggleStatus i prev =
     prev\<lparr>transactions :=
            map (\<lambda>t. if id_tx t = i then t\<lparr>status := toggled (status t)\<rparr> else t)
              (transactions prev)\<rparr>"

section \<open>Auxiliary notions and example data\<close>

text \<open>
  The number of \<^verbatim>\<open>uuidv4()\<close> calls made before iteration \<open>j\<close> of the installment loop:
  none before iteration 0, which makes two, and one per iteration afterwards.
\<close>

definition uuidCallsBefore :: "int \<Rightarrow> nat" where
  "uuidCallsBefore j = (if j = 0 then 0 else nat j + 1)"

text \<open>
  The date whose month is the starting invoice month: the month selected as invoice
  override when there is one, the result of the closing-day rule otherwise. The handler
  passes its year and month to the \<^verbatim>\<open>Date\<close> constructor together with the due day.
\<close>

definition invoiceBase :: "CreditCard \<Rightarrow> Date \<Rightarrow> FormData \<Rightarrow> Date" where
  "invoiceBase crd now r =
     (case fd_targetInvoiceDate r of
        Some selectedMonth \<Rightarrow> selectedMonth
      | None \<Rightarrow> invoiceMonthDate (closingDay crd) (purchaseDate_of now r))"

text \<open>Local midnight of a calendar day, as \<^verbatim>\<open>parseISO\<close> gives for a \<^verbatim>\<open>yyyy-MM-dd\<close> string.\<close>

definition localMidnight :: "int \<Rightarrow> int \<Rightarrow> int \<Rightarrow> Date" where
  "localMidnight y m d = \<lparr>getFullYear = y, getMonth = m, getDate = d, timeOfDay = 0\<rparr>"

definition exampleCard :: CreditCard where
  "exampleCard =
     \<lparr>id_card = ''c1'', name_card = ''Visa'', limit_card = 5000,
      closingDay = 25, dueDay = 5, last4Digits = None\<rparr>"

definition lateDueCard :: CreditCard where
  "lateDueCard =
     \<lparr>id_card = ''c2'', name_card = ''Master'', limit_card = 3000,
      closingDay = 10, dueDay = 31, last4Digits = None\<rparr>"

definition exampleData :: AppData where
  "exampleData =
     \<lparr>transactions = [], cards = [exampleCard, lateDueCard], accounts = [], categories = []\<rparr>"

definition exampleIds :: "nat \<Rightarrow> string" where
  "exampleIds n = CHR ''u'' # replicate n (CHR ''+'')"

definition exampleRequest :: "PaymentMethod \<Rightarrow> string option \<Rightarrow> Date \<Rightarrow> int \<Rightarrow> bool \<Rightarrow> FormData" where
  "exampleRequest pm cid d n isTotal =
     \<lparr>fd_type = Some EXPENSE, fd_description = Some ''TV'', fd_amount = Some 900,
      fd_date = Some d, fd_status = Some PENDING, fd_categoryId = None,
      fd_paymentMethod = Some pm, fd_cardId = cid, fd_accountId = None,
      fd_installmentCount = Some n, fd_isTotalValue = Some isTotal,
      fd_targetInvoiceDate = None\<rparr>"

definition exampleForm :: "string \<Rightarrow> Date \<Rightarrow> FormState" where
  "exampleForm cid d =
     \<lparr>f_type = EXPENSE, f_description = ''TV'', f_amount = ''900'', f_date = Some d,
      f_paymentMethod = CREDIT_CARD, f_status = PENDING, f_cardId = cid, f_accountId = [],
      f_categoryId = [], f_installments = 3, f_isTotalValue = True,
      f_targetInvoiceDate = None, f_initialData = False\<rparr>"

definition closing10Card :: CreditCard where
  "closing10Card =
     \<lparr>id_card = ''c3'', name_card = ''Elo'', limit_card = 2000,
      closingDay = 10, dueDay = 20, last4Digits = None\<rparr>"

definition incomeForm :: FormState where
  "incomeForm = (exampleForm ''c1'' (localMidnight 2024 0 26))\<lparr>f_type := INCOME\<rparr>"

text \<open>
  The form as it stands after a receipt was read: opened with initial data that has no
  id, so that \<^verbatim>\<open>targetInvoiceDate\<close> keeps its initial value \<^verbatim>\<open>''\<close> and the handler runs in
  Add mode.
\<close>

definition prefilledForm :: FormState where
  "prefilledForm = (exampleForm ''c2'' (localMidnight 2024 3 5))\<lparr>f_initialData := True\<rparr>"

definition exampleParseFloat :: "string \<Rightarrow> real option" where
  "exampleParseFloat s = (if s = ''900'' then Some 900 else None)"

text \<open>
  A ledger built by the handler itself: a purchase of 900 in three installments on
  \<open>exampleCard\<close>, entered as pending, followed by a completed income of 900 on
  2024-02-10.
\<close>

definition exampleLedger :: AppData where
  "exampleLedger =
     handleSaveTransaction (\<lambda>n. CHR ''v'' # exampleIds n) (localMidnight 2024 5 1) (Some JEAN)
       (handleSaveTransaction exampleIds (localMidnight 2024 5 1) (Some JEAN) exampleData
          (exampleRequest CREDIT_CARD (Some ''c1'') (localMidnight 2024 0 26) 3 True))
       ((exampleRequest CASH_DEBIT None (localMidnight 2024 1 10) 1 True)
          \<lparr>fd_type := Some INCOME, fd_status := Some COMPLETED\<rparr>)"

section \<open>Calendar lemmas\<close>

lemma monthIndex_addMonths: "monthIndex (addMonths d n) = monthIndex d + n"
  by (simp add: addMonths_def monthIndex_def Let_def)

lemma monthIndex_startOfMonth: "monthIndex (startOfMonth d) = monthIndex d"
  by (simp add: startOfMonth_def monthIndex_def)

lemma daysInMonthIndex_ge: "28 \<le> daysInMonthIndex k"
  by (simp add: daysInMonthIndex_def daysInMonth_def)

lemma newDate_in_month:
  assumes "1 \<le> d" and "d \<le> daysInMonthIndex (y * 12 + m)" and "\<not> (0 \<le> y \<and> y \<le> 99)"
  shows "newDate y m d =
           \<lparr>getFullYear = (y * 12 + m) div 12, getMonth = (y * 12 + m) mod 12,
            getDate = d, timeOfDay = 0\<rparr>"
proof -
  have "rollForward (y * 12 + m) d = (y * 12 + m, d)"
    using assms(2) by (subst rollForward.simps) simp
  moreover have "(if 0 \<le> y \<and> y \<le> 99 then 1900 + y else y) = y"
    using assms(3) by simp
  moreover have "\<not> d < 1"
    using assms(1) by simp
  ultimately show ?thesis
    by (simp add: newDate_def Let_def)
qed

lemma newDate_regular:
  assumes "1 \<le> d" and "d \<le> 28" and "\<not> (0 \<le> y \<and> y \<le> 99)"
  shows "newDate y m d =
           \<lparr>getFullYear = (y * 12 + m) div 12, getMonth = (y * 12 + m) mod 12,
            getDate = d, timeOfDay = 0\<rparr>"
proof -
  have "d \<le> daysInMonthIndex (y * 12 + m)"
    using assms(2) daysInMonthIndex_ge [of "y * 12 + m"] by linarith
  then show ?thesis
    by (rule newDate_in_month [OF assms(1) _ assms(3)])
qed

lemma monthIndex_newDate_regular:
  assumes "1 \<le> d" and "d \<le> 28" and "\<not> (0 \<le> getFullYear s \<and> getFullYear s \<le> 99)"
  shows "monthIndex (newDate (getFullYear s) (getMonth s) d) = monthIndex s"
    and "getDate (newDate (getFullYear s) (getMonth s) d) = d"
  using newDate_regular [OF assms, of "getMonth s"] by (simp_all add: monthIndex_def)

lemma getFullYear_addMonths:
  assumes "0 \<le> getMonth d" and "100 \<le> getFullYear d" and "0 \<le> n"
  shows "100 \<le> getFullYear (addMonths d n)"
  using assms by (auto simp: addMonths_def monthIndex_def Let_def)

lemma newDate_of_date:
  assumes "1 \<le> d" and "d \<le> daysInMonthIndex (monthIndex s)"
    and "0 \<le> getMonth s" and "100 \<le> getFullYear s"
  shows "monthIndex (newDate (getFullYear s) (getMonth s) d) = monthIndex s"
    and "getDate (newDate (getFullYear s) (getMonth s) d) = d"
    and "0 \<le> getMonth (newDate (getFullYear s) (getMonth s) d)"
    and "100 \<le> getFullYear (newDate (getFullYear s) (getMonth s) d)"
proof -
  have y: "\<not> (0 \<le> getFullYear s \<and> getFullYear s \<le> 99)"
    using assms(4) by linarith
  note eq = newDate_in_month [OF assms(1) assms(2) [unfolded monthIndex_def] y]
  show "monthIndex (newDate (getFullYear s) (getMonth s) d) = monthIndex s"
    and "getDate (newDate (getFullYear s) (getMonth s) d) = d"
    and "0 \<le> getMonth (newDate (getFullYear s) (getMonth s) d)"
    by (simp_all add: eq monthIndex_def)
  show "100 \<le> getFullYear (newDate (getFullYear s) (getMonth s) d)"
    using assms(3,4) by (simp add: eq)
qed

lemma dueDate_in_month:
  assumes "1 \<le> dueDay crd" and "dueDay crd \<le> daysInMonthIndex (monthIndex start + i)"
    and "0 \<le> getMonth start" and "100 \<le> getFullYear start" and "0 \<le> i"
  shows "getDate (dueDate crd start i) = dueDay crd"
    and "monthIndex (dueDate crd start i) = monthIndex start + i"
proof -
  let ?t = "addMonths start i"
  have m: "monthIndex ?t = monthIndex start + i"
    by (rule monthIndex_addMonths)
  have y: "100 \<le> getFullYear ?t"
    by (rule getFullYear_addMonths [OF assms(3-5)])
  have g: "0 \<le> getMonth ?t"
    using assms(3) by (auto simp: addMonths_def Let_def)
  note n = newDate_of_date [OF assms(1) assms(2) [folded m] g y]
  show "getDate (dueDate crd start i) = dueDay crd"
    using n(2) by (simp add: dueDate_def Let_def)
  show "monthIndex (dueDate crd start i) = monthIndex start + i"
    using n(1) m by (simp add: dueDate_def Let_def)
qed

text \<open>
  The constructor always yields a date of the calendar, and \<open>addMonths\<close> keeps dates on
  the calendar.
\<close>

lemma rollForward_range:
  "1 \<le> d \<Longrightarrow> rollForward k d = (k', d') \<Longrightarrow> 1 \<le> d' \<and> d' \<le> daysInMonthIndex k'"
proof (induction k d rule: rollForward.induct)
  case (1 k d)
  show ?case
  proof (cases "daysInMonthIndex k < d")
    case True
    then have "rollForward (k + 1) (d - daysInMonthIndex k) = (k', d')"
      using "1.prems"(2) by (subst (asm) rollForward.simps) simp
    then show ?thesis
      using "1.IH" [OF True] True by simp
  next
    case False
    then have "(k, d) = (k', d')"
      using "1.prems"(2) by (subst (asm) rollForward.simps) simp
    then show ?thesis
      using False "1.prems"(1) by auto
  qed
qed

lemma rollBack_range:
  "d \<le> daysInMonthIndex k \<Longrightarrow> rollBack k d = (k', d') \<Longrightarrow> 1 \<le> d' \<and> d' \<le> daysInMonthIndex k'"
proof (induction k d rule: rollBack.induct)
  case (1 k d)
  show ?case
  proof (cases "d < 1")
    case True
    then have "rollBack (k - 1) (d + daysInMonthIndex (k - 1)) = (k', d')"
      using "1.prems"(2) by (subst (asm) rollBack.simps) simp
    then show ?thesis
      using "1.IH" [OF True] True by simp
  next
    case False
    then have "(k, d) = (k', d')"
      using "1.prems"(2) by (subst (asm) rollBack.simps) simp
    then show ?thesis
      using False "1.prems"(1) by auto
  qed
qed

lemma calendarDate_newDate: "calendarDate (newDate y m d)"
proof -
  define k where "k = (if 0 \<le> y \<and> y \<le> 99 then 1900 + y else y) * 12 + m"
  obtain k' d' where r: "(if d < 1 then rollBack k d else rollForward k d) = (k', d')"
    by (cases "if d < 1 then rollBack k d else rollForward k d") blast
  have "1 \<le> d' \<and> d' \<le> daysInMonthIndex k'"
  proof (cases "d < 1")
    case True
    then have "d \<le> daysInMonthIndex k"
      using daysInMonthIndex_ge [of k] by linarith
    then show ?thesis
      using rollBack_range [of d k k' d'] r True by simp
  next
    case False
    then show ?thesis
      using rollForward_range [of d k k' d'] r by simp
  qed
  moreover have "newDate y m d
      = \<lparr>getFullYear = k' div 12, getMonth = k' mod 12, getDate = d', timeOfDay = 0\<rparr>"
    unfolding newDate_def Let_def k_def [symmetric] r by simp
  ultimately show ?thesis
    by (simp add: calendarDate_def daysInMonthIndex_def)
qed

lemma calendarDate_addMonths: "calendarDate d \<Longrightarrow> calendarDate (addMonths d n)"
  using daysInMonthIndex_ge [of "monthIndex d + n"]
  by (auto simp: calendarDate_def addMonths_def Let_def daysInMonthIndex_def)

section \<open>The installment loop in closed form\<close>

lemma pushInstallments_from:
  "1 \<le> i \<Longrightarrow>
     pushInstallments mk n i k acc = acc @ map (\<lambda>j. mk j (k + nat (j - i))) [i..n - 1]"
proof (induction mk n i k acc rule: pushInstallments.induct)
  case (1 mk n i k acc)
  show ?case
  proof (cases "i < n")
    case False
    then show ?thesis by (simp add: pushInstallments.simps [of mk n i])
  next
    case True
    have step: "pushInstallments mk n i k acc =
                  pushInstallments mk n (i + 1) (k + 1) (acc @ [mk i k])"
      using True "1.prems" by (subst pushInstallments.simps) simp
    have ih: "pushInstallments mk n (i + 1) (k + 1) (acc @ [mk i k]) =
                (acc @ [mk i k]) @ map (\<lambda>j. mk j (k + 1 + nat (j - (i + 1)))) [i + 1..n - 1]"
      using "1.IH" [OF True] "1.prems" by simp
    have idx: "map (\<lambda>j. mk j (k + 1 + nat (j - (i + 1)))) [i + 1..n - 1] =
               map (\<lambda>j. mk j (k + nat (j - i))) [i + 1..n - 1]"
      by (rule map_cong) (auto simp: nat_diff_distrib Suc_nat_eq_nat_zadd1 intro!: arg_cong [of _ _ "mk _"])
    have split: "[i..n - 1] = i # [i + 1..n - 1]"
      using True by (simp add: upto_rec1)
    show ?thesis
      unfolding step ih idx split by simp
  qed
qed

lemma pushInstallments_all:
  "pushInstallments mk n 0 0 [] = map (\<lambda>j. mk j (uuidCallsBefore j)) [0..n - 1]"
proof (cases "0 < n")
  case False
  then show ?thesis by (simp add: pushInstallments.simps [of mk n 0])
next
  case True
  have "pushInstallments mk n 0 0 [] = pushInstallments mk n 1 (Suc (Suc 0)) [mk 0 0]"
    using True by (subst pushInstallments.simps) simp
  also have "\<dots> = [mk 0 0] @ map (\<lambda>j. mk j (Suc (Suc 0) + nat (j - 1))) [1..n - 1]"
    by (rule pushInstallments_from) simp
  also have "map (\<lambda>j. mk j (Suc (Suc 0) + nat (j - 1))) [1..n - 1] =
             map (\<lambda>j. mk j (uuidCallsBefore j)) [1..n - 1]"
    by (rule map_cong) (auto simp: uuidCallsBefore_def intro!: arg_cong [of _ _ "mk _"])
  finally show ?thesis
    using True by (simp add: upto_rec1 [of 0] uuidCallsBefore_def)
qed

text \<open>The credit branch with a known card, in closed form.\<close>

lemma transactionsToAdd_credit:
  assumes "fd_paymentMethod r = Some CREDIT_CARD" and "truthy (fd_cardId r)"
    and "find (\<lambda>c. Some (id_card c) = fd_cardId r) cs = Some crd"
  shows "transactionsToAdd uuidv4 now u cs r =
           map (\<lambda>j. installment uuidv4 r crd
                       (startInvoiceDate crd (fd_targetInvoiceDate r) (purchaseDate_of now r))
                       (purchaseDate_of now r) (monthlyAmount_of r) (txUser_of u) (txStatus_of r)
                       (installmentCount_of r) j (uuidCallsBefore j))
               [0..installmentCount_of r - 1]"
  using assms by (simp add: transactionsToAdd_def Let_def pushInstallments_all)

lemma transactionsToAdd_unknown_card:
  assumes "fd_paymentMethod r = Some CREDIT_CARD" and "truthy (fd_cardId r)"
    and "find (\<lambda>c. Some (id_card c) = fd_cardId r) cs = None"
  shows "transactionsToAdd uuidv4 now u cs r = []"
  using assms by (simp add: transactionsToAdd_def Let_def)

lemma transactionsToAdd_cash:
  assumes "\<not> (fd_paymentMethod r = Some CREDIT_CARD \<and> truthy (fd_cardId r))"
  shows "transactionsToAdd uuidv4 now u cs r =
           [cashTransaction uuidv4 r (purchaseDate_of now r) (baseAmount_of r)
              (txUser_of u) (txStatus_of r)]"
  using assms by (auto simp: transactionsToAdd_def Let_def)

lemma known_card_find:
  assumes "\<exists>c \<in> set cs. P c"
  shows "\<exists>crd. find P cs = Some crd"
proof -
  have "find P cs \<noteq> None"
    using assms by (auto simp: find_None_iff)
  then show ?thesis by blast
qed

lemma amount_installment [simp]:
  "amount (installment uuidv4 r crd start p a usr st n j k) = a"
  by (simp add: installment_def)

lemma handleSaveTransaction_cash:
  assumes "fd_paymentMethod r \<noteq> Some CREDIT_CARD \<or> \<not> truthy (fd_cardId r)"
  shows "\<exists>t. handleSaveTransaction uuidv4 now u prev r
               = prev\<lparr>transactions := transactions prev @ [t]\<rparr>
           \<and> date t = purchaseDate_of now r \<and> purchaseDate t = Some (date t)
           \<and> installments t = None \<and> paymentMethod t = CASH_DEBIT \<and> cardId t = None
           \<and> type_tx t = (case fd_type r of None \<Rightarrow> EXPENSE | Some ty \<Rightarrow> ty)"
proof -
  let ?t = "cashTransaction uuidv4 r (purchaseDate_of now r) (baseAmount_of r)
              (txUser_of u) (txStatus_of r)"
  have "handleSaveTransaction uuidv4 now u prev r
          = prev\<lparr>transactions := transactions prev @ [?t]\<rparr>"
    using assms by (auto simp: handleSaveTransaction_def transactionsToAdd_cash)
  moreover have "date ?t = purchaseDate_of now r \<and> purchaseDate ?t = Some (date ?t)
           \<and> installments ?t = None \<and> paymentMethod ?t = CASH_DEBIT \<and> cardId ?t = None
           \<and> type_tx ?t = (case fd_type r of None \<Rightarrow> EXPENSE | Some ty \<Rightarrow> ty)"
    by (simp add: cashTransaction_def)
  ultimately show ?thesis by blast
qed

lemma installments_installment [simp]:
  "installments (installment uuidv4 r crd start p a usr st n j k)
     = Some \<lparr>current = j + 1, total_inst = n,
             originalTransactionId = (if j = 0 then Some (uuidv4 (k + 1)) else None)\<rparr>"
  by (simp add: installment_def)

lemma paymentMethod_installment [simp]:
  "paymentMethod (installment uuidv4 r crd start p a usr st n j k) = CREDIT_CARD"
  by (simp add: installment_def)

lemma id_tx_installment [simp]:
  "id_tx (installment uuidv4 r crd start p a usr st n j k) = uuidv4 k"
  by (simp add: installment_def)

text \<open>Every run of the handler takes one of three ways.\<close>

lemma transactionsToAdd_cases:
  obtains
    (cash) "\<not> (fd_paymentMethod r = Some CREDIT_CARD \<and> truthy (fd_cardId r))"
  | (unknown) "fd_paymentMethod r = Some CREDIT_CARD" "truthy (fd_cardId r)"
      "find (\<lambda>c. Some (id_card c) = fd_cardId r) cs = None"
  | (credit) crd where "fd_paymentMethod r = Some CREDIT_CARD" "truthy (fd_cardId r)"
      "find (\<lambda>c. Some (id_card c) = fd_cardId r) cs = Some crd"
  by (cases "find (\<lambda>c. Some (id_card c) = fd_cardId r) cs") auto

lemma uuidCallsBefore_neq_1: "0 \<le> j \<Longrightarrow> uuidCallsBefore j \<noteq> 1"
  by (simp add: uuidCallsBefore_def)

lemma inj_exampleIds: "inj exampleIds"
proof (rule injI)
  fix x y
  assume "exampleIds x = exampleIds y"
  then have "length (replicate x (CHR ''+'')) = length (replicate y (CHR ''+''))"
    by (simp add: exampleIds_def)
  then show "x = y" by simp
qed

lemma startInvoiceDate_invoiceBase:
  "startInvoiceDate crd (fd_targetInvoiceDate r) (purchaseDate_of now r)
     = newDate (getFullYear (invoiceBase crd now r)) (getMonth (invoiceBase crd now r)) (dueDay crd)"
  by (simp add: startInvoiceDate_def invoiceBase_def Let_def split: option.split)

lemma date_installment [simp]:
  "date (installment uuidv4 r crd start p a usr st n j k) = dueDate crd start j"
  by (simp add: installment_def)

section \<open>Claims about the materializer\<close>

text \<open>
  C2: a create request with \<^verbatim>\<open>paymentMethod = CREDIT_CARD\<close> and a non-empty \<^verbatim>\<open>cardId\<close>
  appends exactly \<^verbatim>\<open>installmentCount\<close> records to the ledger when the card id belongs to
  a known card (none when the count is not positive, the loop body never running), and
  leaves the whole application data unchanged, returning normally, when the card id
  matches no known card.
\<close>

theorem credit_request_record_count:
  assumes "fd_paymentMethod r = Some CREDIT_CARD" and "truthy (fd_cardId r)"
  shows "((\<exists>c \<in> set (cards prev). Some (id_card c) = fd_cardId r) \<longrightarrow>
            (\<exists>added. handleSaveTransaction uuidv4 now u prev r
                        = prev\<lparr>transactions := transactions prev @ added\<rparr>
                    \<and> length added = nat (installmentCount_of r)))
       \<and> ((\<forall>c \<in> set (cards prev). Some (id_card c) \<noteq> fd_cardId r) \<longrightarrow>
            handleSaveTransaction uuidv4 now u prev r = prev)"
proof (intro conjI impI)
  assume "\<exists>c \<in> set (cards prev). Some (id_card c) = fd_cardId r"
  then have "find (\<lambda>c. Some (id_card c) = fd_cardId r) (cards prev) \<noteq> None"
    by (auto simp: find_None_iff)
  then obtain crd where "find (\<lambda>c. Some (id_card c) = fd_cardId r) (cards prev) = Some crd"
    by blast
  from transactionsToAdd_credit [OF assms this]
  have "length (transactionsToAdd uuidv4 now u (cards prev) r) = nat (installmentCount_of r)"
    by simp
  then show "\<exists>added. handleSaveTransaction uuidv4 now u prev r
                        = prev\<lparr>transactions := transactions prev @ added\<rparr>
                    \<and> length added = nat (installmentCount_of r)"
    unfolding handleSaveTransaction_def by blast
next
  assume "\<forall>c \<in> set (cards prev). Some (id_card c) \<noteq> fd_cardId r"
  then have "find (\<lambda>c. Some (id_card c) = fd_cardId r) (cards prev) = None"
    by (auto simp: find_None_iff)
  from transactionsToAdd_unknown_card [OF assms this]
  show "handleSaveTransaction uuidv4 now u prev r = prev"
    by (simp add: handleSaveTransaction_def)
qed

theorem credit_request_record_count_witness:
  "length (transactions (handleSaveTransaction exampleIds (localMidnight 2024 5 1) None exampleData
       (exampleRequest CREDIT_CARD (Some ''c1'') (localMidnight 2024 0 26) 3 True))) = 3
   \<and> handleSaveTransaction exampleIds (localMidnight 2024 5 1) None exampleData
       (exampleRequest CREDIT_CARD (Some ''zz'') (localMidnight 2024 0 26) 3 True) = exampleData"
  using credit_request_record_count [of "exampleRequest CREDIT_CARD (Some ''c1'') (localMidnight 2024 0 26) 3 True"
      exampleData exampleIds "localMidnight 2024 5 1" None]
    credit_request_record_count [of "exampleRequest CREDIT_CARD (Some ''zz'') (localMidnight 2024 0 26) 3 True"
      exampleData exampleIds "localMidnight 2024 5 1" None]
  by (auto simp: exampleRequest_def exampleData_def exampleCard_def lateDueCard_def truthy_def
        installmentCount_of_def)

text \<open>
  What holds of the closing-day rule. The date the handler computes before it applies
  the due day (lines 251 to 257) lies in the purchase's month plus one when the day of
  the month of the purchase date has reached the card's \<^verbatim>\<open>closingDay\<close>, and in the
  purchase's month otherwise; months are compared by their index \<open>12 * year + month\<close>.
  The three invoice months the form offers follow the same rule. The starting invoice
  date the handler builds from it on line 258 lies in that month when the due day is one
  that every month has and the year is not below 100.
\<close>

lemma invoice_month_rule:
  "monthIndex (invoiceMonthDate closing p)
     = (if getDate p \<ge> closing then monthIndex p + 1 else monthIndex p)
   \<and> (f_paymentMethod f = CREDIT_CARD \<and> f_cardId f \<noteq> []
        \<and> find (\<lambda>c. id_card c = f_cardId f) cs = Some crd \<and> f_date f = Some p \<longrightarrow>
      map monthIndex (invoiceOptions cs f)
        = (if getDate p \<ge> closingDay crd
           then [monthIndex p + 1, monthIndex p + 2, monthIndex p + 3]
           else [monthIndex p, monthIndex p + 1, monthIndex p + 2]))
   \<and> (1 \<le> dueDay crd \<and> dueDay crd \<le> 28 \<and> 0 \<le> getMonth p \<and> 100 \<le> getFullYear p \<longrightarrow>
      monthIndex (startInvoiceDate crd None p)
        = (if getDate p \<ge> closingDay crd then monthIndex p + 1 else monthIndex p))"
proof (intro conjI impI)
  show "monthIndex (invoiceMonthDate closing p)
          = (if getDate p \<ge> closing then monthIndex p + 1 else monthIndex p)"
    by (simp add: invoiceMonthDate_def Let_def monthIndex_addMonths)
next
  assume "f_paymentMethod f = CREDIT_CARD \<and> f_cardId f \<noteq> []
        \<and> find (\<lambda>c. id_card c = f_cardId f) cs = Some crd \<and> f_date f = Some p"
  then show "map monthIndex (invoiceOptions cs f)
        = (if getDate p \<ge> closingDay crd
           then [monthIndex p + 1, monthIndex p + 2, monthIndex p + 3]
           else [monthIndex p, monthIndex p + 1, monthIndex p + 2])"
    by (simp add: invoiceOptions_def Let_def monthIndex_addMonths monthIndex_startOfMonth)
next
  assume a: "1 \<le> dueDay crd \<and> dueDay crd \<le> 28 \<and> 0 \<le> getMonth p \<and> 100 \<le> getFullYear p"
  define s where "s = invoiceMonthDate (closingDay crd) p"
  have "100 \<le> getFullYear s"
    using a getFullYear_addMonths [of p 1] by (simp add: s_def invoiceMonthDate_def Let_def)
  then have y: "\<not> (0 \<le> getFullYear s \<and> getFullYear s \<le> 99)" by linarith
  have "monthIndex (startInvoiceDate crd None p) = monthIndex s"
    using monthIndex_newDate_regular(1) [OF _ _ y, of "dueDay crd"] a
    by (simp add: startInvoiceDate_def Let_def s_def)
  then show "monthIndex (startInvoiceDate crd None p)
        = (if getDate p \<ge> closingDay crd then monthIndex p + 1 else monthIndex p)"
    by (simp add: s_def invoiceMonthDate_def Let_def monthIndex_addMonths)
qed

lemma invoice_month_rule_example:
  "monthIndex (invoiceMonthDate 10 (localMidnight 2024 2 9)) = 2024 * 12 + 2
   \<and> monthIndex (invoiceMonthDate 10 (localMidnight 2024 2 10)) = 2024 * 12 + 3
   \<and> monthIndex (invoiceMonthDate 10 (localMidnight 2024 11 11)) = 2025 * 12 + 0
   \<and> map monthIndex
        (invoiceOptions [exampleCard, closing10Card] (exampleForm ''c3'' (localMidnight 2024 11 11)))
       = [2025 * 12 + 0, 2025 * 12 + 1, 2025 * 12 + 2]
   \<and> monthIndex (startInvoiceDate closing10Card None (localMidnight 2024 11 11)) = 2025 * 12 + 0"
proof -
  let ?p = "localMidnight 2024 11 11"
  let ?f = "exampleForm ''c3'' ?p"
  let ?cs = "[exampleCard, closing10Card]"
  have m: "monthIndex (localMidnight 2024 2 9) = 2024 * 12 + 2"
    "monthIndex (localMidnight 2024 2 10) = 2024 * 12 + 2"
    "monthIndex ?p = 2024 * 12 + 11"
    by (simp_all add: monthIndex_def localMidnight_def)
  have d: "getDate (localMidnight 2024 2 9) = 9" "getDate (localMidnight 2024 2 10) = 10"
    "getDate ?p = 11" "getMonth ?p = 11" "getFullYear ?p = 2024"
    by (simp_all add: localMidnight_def)
  have c: "closingDay closing10Card = 10" "dueDay closing10Card = 20"
    by (simp_all add: closing10Card_def)
  have h: "f_paymentMethod ?f = CREDIT_CARD \<and> f_cardId ?f \<noteq> []
        \<and> find (\<lambda>c. id_card c = f_cardId ?f) ?cs = Some closing10Card \<and> f_date ?f = Some ?p"
    by (simp add: exampleForm_def exampleCard_def closing10Card_def)
  have a: "monthIndex (invoiceMonthDate 10 (localMidnight 2024 2 9)) = 2024 * 12 + 2"
    using invoice_month_rule [of 10 "localMidnight 2024 2 9"] by (simp add: m d)
  have b: "monthIndex (invoiceMonthDate 10 (localMidnight 2024 2 10)) = 2024 * 12 + 3"
    using invoice_month_rule [of 10 "localMidnight 2024 2 10"] by (simp add: m d)
  note r = invoice_month_rule [of 10 ?p ?f ?cs closing10Card]
  have e: "monthIndex (invoiceMonthDate 10 ?p) = 2025 * 12 + 0"
    using r by (simp add: m d)
  have f: "map monthIndex (invoiceOptions ?cs ?f) = [2025 * 12 + 0, 2025 * 12 + 1, 2025 * 12 + 2]"
    using r h by (simp add: m d c)
  have g: "monthIndex (startInvoiceDate closing10Card None ?p) = 2025 * 12 + 0"
    using r by (simp add: m d c)
  show ?thesis
    using a b e f g by blast
qed

text \<open>
  C1 at a failing input: a card with \<^verbatim>\<open>closingDay = 10\<close> and \<^verbatim>\<open>dueDay = 31\<close>, a purchase on
  2024-04-05 in three installments, no invoice override. The day of the purchase is
  below the closing day, so the starting invoice month should be April 2024. Line 258
  builds \<^verbatim>\<open>new Date(2024, 3, 31)\<close>, and April has 30 days: the starting invoice date is
  2024-05-01, and the installments are dated 2024-05-31, 2024-07-01 and 2024-07-31.
  The form sends such a request, with one installment, when it was opened from a
  receipt: the single record is dated 2024-05-31.
\<close>

theorem closing_rule_start_overflow:
  "getDate (localMidnight 2024 3 5) < closingDay lateDueCard
   \<and> invoiceMonthDate (closingDay lateDueCard) (localMidnight 2024 3 5) = localMidnight 2024 3 5
   \<and> startInvoiceDate lateDueCard None (localMidnight 2024 3 5) = localMidnight 2024 4 1
   \<and> map date (transactionsToAdd exampleIds (localMidnight 2024 5 1) None (cards exampleData)
        (exampleRequest CREDIT_CARD (Some ''c2'') (localMidnight 2024 3 5) 3 True))
     = [localMidnight 2024 4 31, localMidnight 2024 6 1, localMidnight 2024 6 31]
   \<and> map_option
        (\<lambda>rf. (fd_targetInvoiceDate rf,
               map date (transactionsToAdd exampleIds (localMidnight 2024 5 1) None
                           (cards exampleData) rf)))
        (handleSubmit exampleParseFloat prefilledForm)
     = Some (None, [localMidnight 2024 4 31])"
  by code_simp

text \<open>For the same purchase the form offers April, May and June 2024.\<close>

lemma form_offers_purchase_month:
  "invoiceOptions (cards exampleData) (exampleForm ''c2'' (localMidnight 2024 3 5))
     = [localMidnight 2024 3 1, localMidnight 2024 4 1, localMidnight 2024 5 1]"
  by code_simp

text \<open>
  C3, as amended: on a known card, for a starting invoice month in a year from 100 on
  and a due day from 1 on that does not exceed the length of any of the \<open>N\<close> months
  counted from the starting invoice month (every due day from 1 to 28 does not), the \<open>N\<close>
  emitted accounting dates are such that the date of installment \<open>i\<close>, counted from 0,
  is the due day of month \<open>start + i\<close>: each date falls on the due day and consecutive dates
  are exactly one month apart.
\<close>

theorem installment_due_dates:
  assumes "fd_paymentMethod r = Some CREDIT_CARD" and "truthy (fd_cardId r)"
    and "find (\<lambda>c. Some (id_card c) = fd_cardId r) cs = Some crd"
    and "0 \<le> getMonth (invoiceBase crd now r)" and "100 \<le> getFullYear (invoiceBase crd now r)"
    and "1 \<le> dueDay crd"
    and "\<forall>j \<in> {0..<installmentCount_of r}.
           dueDay crd \<le> daysInMonthIndex (monthIndex (invoiceBase crd now r) + j)"
  shows "map (\<lambda>t. (monthIndex (date t), getDate (date t))) (transactionsToAdd uuidv4 now u cs r)
           = map (\<lambda>j. (monthIndex (invoiceBase crd now r) + j, dueDay crd))
               [0..installmentCount_of r - 1]
       \<and> length (transactionsToAdd uuidv4 now u cs r) = nat (installmentCount_of r)"
proof (cases "0 < installmentCount_of r")
  case False
  then show ?thesis
    by (simp add: transactionsToAdd_credit [OF assms(1-3)])
next
  case True
  let ?b = "invoiceBase crd now r"
  let ?s = "startInvoiceDate crd (fd_targetInvoiceDate r) (purchaseDate_of now r)"
  have d0: "dueDay crd \<le> daysInMonthIndex (monthIndex ?b)"
    using assms(7) True by force
  note s = newDate_of_date [OF assms(6) d0 assms(4,5), folded startInvoiceDate_invoiceBase]
  have "(monthIndex (dueDate crd ?s j), getDate (dueDate crd ?s j))
          = (monthIndex ?b + j, dueDay crd)" if "j \<in> set [0..installmentCount_of r - 1]" for j
  proof -
    have j: "0 \<le> j" "j < installmentCount_of r"
      using that by auto
    then have "dueDay crd \<le> daysInMonthIndex (monthIndex ?s + j)"
      using assms(7) s(1) by simp
    from dueDate_in_month [OF assms(6) this s(3,4) j(1)] s(1)
    show ?thesis by simp
  qed
  then show ?thesis
    unfolding transactionsToAdd_credit [OF assms(1-3)] by (simp add: comp_def)
qed

theorem installment_due_dates_witness:
  "map (\<lambda>t. (monthIndex (date t), getDate (date t)))
     (transactionsToAdd exampleIds (localMidnight 2024 5 1) None (cards exampleData)
        (exampleRequest CREDIT_CARD (Some ''c1'') (localMidnight 2024 0 26) 3 True))
   = [(2024 * 12 + 1, 5), (2024 * 12 + 2, 5), (2024 * 12 + 3, 5)]"
proof -
  let ?r = "exampleRequest CREDIT_CARD (Some ''c1'') (localMidnight 2024 0 26) 3 True"
  let ?now = "localMidnight 2024 5 1"
  have b: "invoiceBase exampleCard ?now ?r
             = \<lparr>getFullYear = 2024, getMonth = 1, getDate = 26, timeOfDay = 0\<rparr>"
    by code_simp
  have h: "fd_paymentMethod ?r = Some CREDIT_CARD" "truthy (fd_cardId ?r)"
    "find (\<lambda>c. Some (id_card c) = fd_cardId ?r) (cards exampleData) = Some exampleCard"
    "0 \<le> getMonth (invoiceBase exampleCard ?now ?r)"
    "100 \<le> getFullYear (invoiceBase exampleCard ?now ?r)"
    "1 \<le> dueDay exampleCard"
    unfolding b
    by (simp_all add: exampleRequest_def truthy_def exampleData_def exampleCard_def)
  have d: "\<forall>j \<in> {0..<installmentCount_of ?r}.
           dueDay exampleCard \<le> daysInMonthIndex (monthIndex (invoiceBase exampleCard ?now ?r) + j)"
  proof
    fix j
    show "dueDay exampleCard \<le> daysInMonthIndex (monthIndex (invoiceBase exampleCard ?now ?r) + j)"
      using daysInMonthIndex_ge [of "monthIndex (invoiceBase exampleCard ?now ?r) + j"]
      by (simp add: exampleCard_def)
  qed
  have n: "installmentCount_of ?r - 1 = 2" "dueDay exampleCard = 5"
    "monthIndex (invoiceBase exampleCard ?now ?r) = 2024 * 12 + 1"
    unfolding b by (simp_all add: installmentCount_of_def exampleRequest_def exampleCard_def monthIndex_def)
  have l: "[0..2::int] = [0, 1, 2]"
    by code_simp
  show ?thesis
    unfolding installment_due_dates [OF h d, of exampleIds None, THEN conjunct1] n l by simp
qed

text \<open>
  C3 as stated fails for a due day that some month lacks: a card with \<^verbatim>\<open>dueDay = 31\<close> and
  \<^verbatim>\<open>closingDay = 10\<close>, a purchase on 2024-01-05 in three installments. The three
  accounting dates are 2024-01-31, 2024-03-02 and 2024-03-31: the second one is not on
  day 31, and the dates are not one month apart.
\<close>

theorem due_day_overflow:
  "map date (transactionsToAdd exampleIds (localMidnight 2024 5 1) None (cards exampleData)
      (exampleRequest CREDIT_CARD (Some ''c2'') (localMidnight 2024 0 5) 3 True))
    = [localMidnight 2024 0 31, localMidnight 2024 2 2, localMidnight 2024 2 31]"
  by code_simp

text \<open>
  C4: for a credit-card purchase on a known card with amount \<open>a\<close> and installment count
  \<open>n\<close>, the \<open>n\<close> emitted transactions all carry the amount \<open>a / n\<close> when the amount
  is the total (\<^verbatim>\<open>isTotalValue\<close> true, the default), with no rounding and no remainder
  moved between installments, and all carry \<open>a\<close> itself when the amount is per installment.
\<close>

theorem installment_amounts:
  assumes "fd_paymentMethod r = Some CREDIT_CARD" and "truthy (fd_cardId r)"
    and "\<exists>c \<in> set cs. Some (id_card c) = fd_cardId r"
    and "fd_amount r = Some a" and "fd_installmentCount r = Some n"
  shows "(fd_isTotalValue r \<noteq> Some False \<longrightarrow>
            map amount (transactionsToAdd uuidv4 now u cs r) = replicate (nat n) (a / of_int n))
       \<and> (fd_isTotalValue r = Some False \<longrightarrow>
            map amount (transactionsToAdd uuidv4 now u cs r) = replicate (nat n) a)"
proof -
  obtain crd where f: "find (\<lambda>c. Some (id_card c) = fd_cardId r) cs = Some crd"
    using known_card_find [OF assms(3)] by blast
  have "map amount (transactionsToAdd uuidv4 now u cs r)
          = replicate (nat n) (monthlyAmount_of r)"
    using assms(5)
    by (simp add: transactionsToAdd_credit [OF assms(1,2) f] installmentCount_of_def
          map_replicate_const comp_def)
  moreover have "fd_isTotalValue r \<noteq> Some False \<Longrightarrow> monthlyAmount_of r = a / of_int n"
    using assms(4,5)
    by (cases "fd_isTotalValue r")
       (auto simp: monthlyAmount_of_def isTotalValue_of_def baseAmount_of_def
          installmentCount_of_def)
  moreover have "fd_isTotalValue r = Some False \<Longrightarrow> monthlyAmount_of r = a"
    using assms(4)
    by (simp add: monthlyAmount_of_def isTotalValue_of_def baseAmount_of_def)
  ultimately show ?thesis by simp
qed

theorem installment_amounts_witness:
  "map amount (transactionsToAdd exampleIds (localMidnight 2024 5 1) None (cards exampleData)
      (exampleRequest CREDIT_CARD (Some ''c1'') (localMidnight 2024 0 26) 3 True))
     = [300, 300, 300]
   \<and> map amount (transactionsToAdd exampleIds (localMidnight 2024 5 1) None (cards exampleData)
      (exampleRequest CREDIT_CARD (Some ''c1'') (localMidnight 2024 0 26) 4 False))
     = [900, 900, 900, 900]"
proof -
  let ?r = "exampleRequest CREDIT_CARD (Some ''c1'') (localMidnight 2024 0 26)"
  have h: "fd_paymentMethod (?r n b) = Some CREDIT_CARD" "truthy (fd_cardId (?r n b))"
    "\<exists>c \<in> set (cards exampleData). Some (id_card c) = fd_cardId (?r n b)"
    "fd_amount (?r n b) = Some 900" "fd_installmentCount (?r n b) = Some n"
    "fd_isTotalValue (?r n b) = Some b" for n b
    by (simp_all add: exampleRequest_def truthy_def exampleData_def exampleCard_def)
  have r3: "replicate (nat 3) (900 / of_int 3 :: real) = [300, 300, 300]"
    by (simp add: numeral_3_eq_3)
  have r4: "replicate (nat 4) (900 :: real) = [900, 900, 900, 900]"
    by (simp add: eval_nat_numeral)
  show ?thesis
    using installment_amounts [OF h(1-5), of 3 True exampleIds "localMidnight 2024 5 1" None]
      installment_amounts [OF h(1-5), of 4 False exampleIds "localMidnight 2024 5 1" None]
    by (simp only: h(6) r3 r4) simp
qed

text \<open>
  C5: every create request with \<^verbatim>\<open>paymentMethod = CASH_DEBIT\<close> or \<^verbatim>\<open>type = INCOME\<close> appends
  exactly one transaction whose accounting date is its purchase date, without
  installments, whatever installment count it carries and whatever the card list holds.
  A create request is what \<^verbatim>\<open>handleSubmit\<close> passes to the handler, which has no other
  caller; \<^verbatim>\<open>handleSubmit\<close> sends \<^verbatim>\<open>CASH_DEBIT\<close> as the payment method of every
  \<^verbatim>\<open>INCOME\<close> entry, and the handler takes the cash branch for every request whose payment
  method is not \<^verbatim>\<open>CREDIT_CARD\<close>, whoever built it.
\<close>

theorem cash_request_single_record:
  "(handleSubmit parseFloat f = Some rf
      \<and> (fd_paymentMethod rf = Some CASH_DEBIT \<or> fd_type rf = Some INCOME) \<longrightarrow>
      fd_paymentMethod rf = Some CASH_DEBIT
      \<and> (\<exists>t. handleSaveTransaction uuidv4 now u prev rf
                 = prev\<lparr>transactions := transactions prev @ [t]\<rparr>
             \<and> date t = purchaseDate_of now rf \<and> purchaseDate t = Some (date t)
             \<and> installments t = None \<and> paymentMethod t = CASH_DEBIT
             \<and> fd_type rf = Some (type_tx t))
      \<and> transactionsToAdd uuidv4 now u cs' (rf\<lparr>fd_installmentCount := n'\<rparr>)
           = transactionsToAdd uuidv4 now u (cards prev) rf)
   \<and> (fd_paymentMethod r \<noteq> Some CREDIT_CARD \<longrightarrow>
      (\<exists>t. handleSaveTransaction uuidv4 now u prev r
               = prev\<lparr>transactions := transactions prev @ [t]\<rparr>
           \<and> date t = purchaseDate_of now r \<and> purchaseDate t = Some (date t)
           \<and> installments t = None \<and> paymentMethod t = CASH_DEBIT)
      \<and> transactionsToAdd uuidv4 now u cs' (r\<lparr>fd_installmentCount := n'\<rparr>)
           = transactionsToAdd uuidv4 now u (cards prev) r)"
proof -
  have indep: "transactionsToAdd uuidv4 now u cs' (q\<lparr>fd_installmentCount := n'\<rparr>)
                 = transactionsToAdd uuidv4 now u (cards prev) q"
    if "fd_paymentMethod q \<noteq> Some CREDIT_CARD" for q
    using that
    by (simp add: transactionsToAdd_cash cashTransaction_def purchaseDate_of_def
          baseAmount_of_def txStatus_of_def)
  have single: "\<exists>t. handleSaveTransaction uuidv4 now u prev q
               = prev\<lparr>transactions := transactions prev @ [t]\<rparr>
           \<and> date t = purchaseDate_of now q \<and> purchaseDate t = Some (date t)
           \<and> installments t = None \<and> paymentMethod t = CASH_DEBIT
           \<and> type_tx t = (case fd_type q of None \<Rightarrow> EXPENSE | Some ty \<Rightarrow> ty)"
    if "fd_paymentMethod q \<noteq> Some CREDIT_CARD" for q
    using handleSaveTransaction_cash [of q uuidv4 now u prev] that by blast
  have form: "fd_paymentMethod rf = Some CASH_DEBIT
      \<and> (\<exists>t. handleSaveTransaction uuidv4 now u prev rf
                 = prev\<lparr>transactions := transactions prev @ [t]\<rparr>
             \<and> date t = purchaseDate_of now rf \<and> purchaseDate t = Some (date t)
             \<and> installments t = None \<and> paymentMethod t = CASH_DEBIT
             \<and> fd_type rf = Some (type_tx t))
      \<and> transactionsToAdd uuidv4 now u cs' (rf\<lparr>fd_installmentCount := n'\<rparr>)
           = transactionsToAdd uuidv4 now u (cards prev) rf"
    if s: "handleSubmit parseFloat f = Some rf"
      and d: "fd_paymentMethod rf = Some CASH_DEBIT \<or> fd_type rf = Some INCOME"
  proof -
    have ty: "fd_type rf = Some (f_type f)"
      using s by (auto simp: handleSubmit_def split: if_splits)
    have "fd_paymentMethod rf = Some (if f_type f = INCOME then CASH_DEBIT else f_paymentMethod f)"
      using s by (auto simp: handleSubmit_def split: if_splits)
    then have pm: "fd_paymentMethod rf = Some CASH_DEBIT"
      using d ty by auto
    then have n: "fd_paymentMethod rf \<noteq> Some CREDIT_CARD"
      by simp
    show ?thesis
      using pm single [OF n] indep [OF n] ty by auto
  qed
  show ?thesis
    using form single indep by blast
qed

theorem cash_request_single_record_witness:
  "map_option
     (\<lambda>rf. length (transactions
                (handleSaveTransaction exampleIds (localMidnight 2024 5 1) None exampleData rf)))
     (handleSubmit exampleParseFloat incomeForm) = Some 1
   \<and> length (transactions (handleSaveTransaction exampleIds (localMidnight 2024 5 1) None exampleData
       (exampleRequest CASH_DEBIT None (localMidnight 2024 0 26) 3 True))) = 1"
proof -
  let ?r = "exampleRequest CASH_DEBIT None (localMidnight 2024 0 26) 3 True"
  have h: "fd_paymentMethod ?r \<noteq> Some CREDIT_CARD"
    by (simp add: exampleRequest_def)
  obtain rf where s: "handleSubmit exampleParseFloat incomeForm = Some rf"
    by (simp add: handleSubmit_def incomeForm_def exampleForm_def)
  then have i: "fd_type rf = Some INCOME"
    by (auto simp: handleSubmit_def incomeForm_def exampleForm_def split: if_splits)
  note inst = cash_request_single_record [of exampleParseFloat incomeForm rf exampleIds
      "localMidnight 2024 5 1" None exampleData _ _ ?r]
  obtain t where "handleSaveTransaction exampleIds (localMidnight 2024 5 1) None exampleData ?r
       = exampleData\<lparr>transactions := transactions exampleData @ [t]\<rparr>"
    using inst h by blast
  then have a: "length (transactions (handleSaveTransaction exampleIds (localMidnight 2024 5 1) None
          exampleData ?r)) = 1"
    by (simp add: exampleData_def)
  obtain t' where "handleSaveTransaction exampleIds (localMidnight 2024 5 1) None exampleData rf
       = exampleData\<lparr>transactions := transactions exampleData @ [t']\<rparr>"
    using inst s i by blast
  then have "length (transactions (handleSaveTransaction exampleIds (localMidnight 2024 5 1) None
          exampleData rf)) = 1"
    by (simp add: exampleData_def)
  then show ?thesis
    using a s by simp
qed

text \<open>
  C6, as amended: among the records a create request produces, the \<^verbatim>\<open>installments\<close>
  field is present exactly on those of the credit-card branch, whatever the installment
  count, and absent on the record of the cash branch. Where present, \<^verbatim>\<open>total\<close> is the
  installment count and \<^verbatim>\<open>current\<close> lies between 1 and \<^verbatim>\<open>total\<close>.
\<close>

theorem installments_on_card_records:
  "\<forall>t \<in> set (transactionsToAdd uuidv4 now u cs r).
      (installments t \<noteq> None) = (paymentMethod t = CREDIT_CARD)
      \<and> (\<forall>i. installments t = Some i \<longrightarrow>
             total_inst i = installmentCount_of r \<and> 1 \<le> current i \<and> current i \<le> total_inst i)"
proof (cases rule: transactionsToAdd_cases [where r = r and cs = cs])
  case cash
  then show ?thesis
    by (auto simp: transactionsToAdd_cash cashTransaction_def)
next
  case unknown
  then show ?thesis
    by (simp add: transactionsToAdd_unknown_card)
next
  case (credit crd)
  show ?thesis
    by (auto simp: transactionsToAdd_credit [OF credit])
qed

theorem installments_on_card_records_witness:
  "map (\<lambda>t. installments t \<noteq> None)
     (transactionsToAdd exampleIds (localMidnight 2024 5 1) None (cards exampleData)
        (exampleRequest CREDIT_CARD (Some ''c1'') (localMidnight 2024 0 26) 1 True)) = [True]
   \<and> map (\<lambda>t. installments t \<noteq> None)
     (transactionsToAdd exampleIds (localMidnight 2024 5 1) None (cards exampleData)
        (exampleRequest CASH_DEBIT None (localMidnight 2024 0 26) 1 True)) = [False]"
proof -
  let ?a = "transactionsToAdd exampleIds (localMidnight 2024 5 1) None (cards exampleData)
        (exampleRequest CREDIT_CARD (Some ''c1'') (localMidnight 2024 0 26) 1 True)"
  let ?b = "transactionsToAdd exampleIds (localMidnight 2024 5 1) None (cards exampleData)
        (exampleRequest CASH_DEBIT None (localMidnight 2024 0 26) 1 True)"
  have a: "map paymentMethod ?a = [CREDIT_CARD]"
    by code_simp
  have b: "map paymentMethod ?b = [CASH_DEBIT]"
    by code_simp
  have "map (\<lambda>t. installments t \<noteq> None) ?a = map (\<lambda>t. paymentMethod t = CREDIT_CARD) ?a"
    using installments_on_card_records [of exampleIds "localMidnight 2024 5 1" None "cards exampleData"
        "exampleRequest CREDIT_CARD (Some ''c1'') (localMidnight 2024 0 26) 1 True"]
    by (intro map_cong) auto
  moreover have "map (\<lambda>t. installments t \<noteq> None) ?b = map (\<lambda>t. paymentMethod t = CREDIT_CARD) ?b"
    using installments_on_card_records [of exampleIds "localMidnight 2024 5 1" None "cards exampleData"
        "exampleRequest CASH_DEBIT None (localMidnight 2024 0 26) 1 True"]
    by (intro map_cong) auto
  moreover have "map (\<lambda>t. paymentMethod t = CREDIT_CARD) ?a = [True]"
    using a by (cases ?a) auto
  moreover have "map (\<lambda>t. paymentMethod t = CREDIT_CARD) ?b = [False]"
    using b by (cases ?b) auto
  ultimately show ?thesis by simp
qed

text \<open>
  C6 as stated fails for a credit-card purchase with \<^verbatim>\<open>installmentCount = 1\<close>: its single
  record carries \<^verbatim>\<open>installments = {current: 1, total: 1, originalTransactionId: ...}\<close>.
\<close>

theorem single_installment_counterexample:
  "installmentCount_of (exampleRequest CREDIT_CARD (Some ''c1'') (localMidnight 2024 0 26) 1 True) = 1
   \<and> map installments
        (transactionsToAdd exampleIds (localMidnight 2024 5 1) None (cards exampleData)
           (exampleRequest CREDIT_CARD (Some ''c1'') (localMidnight 2024 0 26) 1 True))
     = [Some \<lparr>current = 1, total_inst = 1, originalTransactionId = Some (exampleIds 1)\<rparr>]"
  by code_simp

text \<open>
  C10: a create request with \<^verbatim>\<open>paymentMethod = CREDIT_CARD\<close> whose \<^verbatim>\<open>cardId\<close> is absent or
  empty takes the cash branch: the handler returns normally and appends exactly one
  transaction, recorded with \<^verbatim>\<open>paymentMethod = CASH_DEBIT\<close>, dated on the purchase date,
  without installments and without a card id.
\<close>

theorem credit_without_card_id:
  assumes "fd_paymentMethod r = Some CREDIT_CARD" and "\<not> truthy (fd_cardId r)"
  shows "\<exists>t. handleSaveTransaction uuidv4 now u prev r
               = prev\<lparr>transactions := transactions prev @ [t]\<rparr>
           \<and> paymentMethod t = CASH_DEBIT \<and> date t = purchaseDate_of now r
           \<and> purchaseDate t = Some (date t) \<and> installments t = None \<and> cardId t = None"
  using handleSaveTransaction_cash [of r uuidv4 now u prev] assms(2) by blast

theorem credit_without_card_id_witness:
  "map (\<lambda>t. (paymentMethod t, date t, installments t))
     (transactions (handleSaveTransaction exampleIds (localMidnight 2024 5 1) None exampleData
        (exampleRequest CREDIT_CARD (Some []) (localMidnight 2024 0 26) 3 True)))
   = [(CASH_DEBIT, localMidnight 2024 0 26, None)]"
proof -
  let ?r = "exampleRequest CREDIT_CARD (Some []) (localMidnight 2024 0 26) 3 True"
  have h: "fd_paymentMethod ?r = Some CREDIT_CARD" "\<not> truthy (fd_cardId ?r)"
    "purchaseDate_of (localMidnight 2024 5 1) ?r = localMidnight 2024 0 26"
    by (simp_all add: exampleRequest_def truthy_def purchaseDate_of_def)
  obtain t where "handleSaveTransaction exampleIds (localMidnight 2024 5 1) None exampleData ?r
               = exampleData\<lparr>transactions := transactions exampleData @ [t]\<rparr>"
     and "paymentMethod t = CASH_DEBIT" and "date t = localMidnight 2024 0 26"
     and "installments t = None"
    using credit_without_card_id [OF h(1,2), of exampleIds "localMidnight 2024 5 1" None exampleData]
    unfolding h(3) by blast
  then show ?thesis
    by (simp add: exampleData_def)
qed

text \<open>
  C9: in a purchase materialized on a known card, \<^verbatim>\<open>installments.originalTransactionId\<close>
  is set on the first installment only (\<^verbatim>\<open>current = 1\<close>), to the value of a second
  \<^verbatim>\<open>uuidv4()\<close> call made after the one that gave the record its id, and is left unset on every
  other installment. When \<^verbatim>\<open>uuidv4\<close> never returns the same value twice, that value is the
  id of none of the purchase's records, the first installment's own id included.
\<close>

theorem original_id_on_first_only:
  assumes "fd_paymentMethod r = Some CREDIT_CARD" and "truthy (fd_cardId r)"
    and "\<exists>c \<in> set cs. Some (id_card c) = fd_cardId r"
  shows "map (\<lambda>t. map_option originalTransactionId (installments t))
             (transactionsToAdd uuidv4 now u cs r)
           = map (\<lambda>j. Some (if j = 0 then Some (uuidv4 1) else None))
               [0..installmentCount_of r - 1]
       \<and> map (\<lambda>t. map_option current (installments t)) (transactionsToAdd uuidv4 now u cs r)
           = map (\<lambda>j. Some (j + 1)) [0..installmentCount_of r - 1]
       \<and> map id_tx (transactionsToAdd uuidv4 now u cs r)
           = map (\<lambda>j. uuidv4 (uuidCallsBefore j)) [0..installmentCount_of r - 1]
       \<and> (inj uuidv4 \<longrightarrow> uuidv4 1 \<notin> set (map id_tx (transactionsToAdd uuidv4 now u cs r)))"
proof -
  obtain crd where f: "find (\<lambda>c. Some (id_card c) = fd_cardId r) cs = Some crd"
    using known_card_find [OF assms(3)] by blast
  note eq = transactionsToAdd_credit [OF assms(1,2) f, of uuidv4 now u]
  have ids: "map id_tx (transactionsToAdd uuidv4 now u cs r)
           = map (\<lambda>j. uuidv4 (uuidCallsBefore j)) [0..installmentCount_of r - 1]"
    by (simp add: eq comp_def)
  have orig: "map (\<lambda>t. map_option originalTransactionId (installments t))
             (transactionsToAdd uuidv4 now u cs r)
           = map (\<lambda>j. Some (if j = 0 then Some (uuidv4 1) else None))
               [0..installmentCount_of r - 1]"
    by (simp add: eq comp_def uuidCallsBefore_def)
  have cur: "map (\<lambda>t. map_option current (installments t)) (transactionsToAdd uuidv4 now u cs r)
           = map (\<lambda>j. Some (j + 1)) [0..installmentCount_of r - 1]"
    by (simp add: eq comp_def)
  have fresh: "uuidv4 1 \<notin> set (map id_tx (transactionsToAdd uuidv4 now u cs r))" if "inj uuidv4"
  proof
    assume "uuidv4 1 \<in> set (map id_tx (transactionsToAdd uuidv4 now u cs r))"
    then obtain j where "0 \<le> j" and "uuidv4 1 = uuidv4 (uuidCallsBefore j)"
      unfolding ids by auto
    then have "0 \<le> j" and "uuidCallsBefore j = 1"
      using that by (simp_all add: inj_eq)
    then show False
      using uuidCallsBefore_neq_1 by blast
  qed
  show ?thesis
    using ids orig cur fresh by blast
qed

theorem original_id_on_first_only_witness:
  "map (\<lambda>t. map_option originalTransactionId (installments t))
     (transactionsToAdd exampleIds (localMidnight 2024 5 1) None (cards exampleData)
        (exampleRequest CREDIT_CARD (Some ''c1'') (localMidnight 2024 0 26) 3 True))
     = [Some (Some (exampleIds 1)), Some None, Some None]
   \<and> exampleIds 1 \<notin> set (map id_tx
       (transactionsToAdd exampleIds (localMidnight 2024 5 1) None (cards exampleData)
        (exampleRequest CREDIT_CARD (Some ''c1'') (localMidnight 2024 0 26) 3 True)))"
proof -
  let ?r = "exampleRequest CREDIT_CARD (Some ''c1'') (localMidnight 2024 0 26) 3 True"
  have h: "fd_paymentMethod ?r = Some CREDIT_CARD" "truthy (fd_cardId ?r)"
    "\<exists>c \<in> set (cards exampleData). Some (id_card c) = fd_cardId ?r"
    by (simp_all add: exampleRequest_def truthy_def exampleData_def exampleCard_def)
  have n: "installmentCount_of ?r - 1 = 2"
    by (simp add: installmentCount_of_def exampleRequest_def)
  have l: "[0..2::int] = [0, 1, 2]"
    by code_simp
  note inst = original_id_on_first_only [OF h, of exampleIds "localMidnight 2024 5 1" None]
  have a: "map (\<lambda>t. map_option originalTransactionId (installments t))
             (transactionsToAdd exampleIds (localMidnight 2024 5 1) None (cards exampleData) ?r)
           = map (\<lambda>j. Some (if j = 0 then Some (exampleIds 1) else None))
               [0..installmentCount_of ?r - 1]"
    using inst by blast
  have b: "exampleIds 1 \<notin> set (map id_tx
       (transactionsToAdd exampleIds (localMidnight 2024 5 1) None (cards exampleData) ?r))"
    using inst inj_exampleIds by blast
  show ?thesis
    unfolding a n l using b by simp
qed

section \<open>Claims about the ledger views and status toggling\<close>

text \<open>The four running sums after the loop, and sums over the sorted month view.\<close>

lemma fold_summaryStep:
  "incomeProjected_sum (fold summaryStep xs s)
     = incomeProjected_sum s + sum_list (map amount (filter (\<lambda>t. type_tx t = INCOME) xs))"
  "expenseProjected_sum (fold summaryStep xs s)
     = expenseProjected_sum s + sum_list (map amount (filter (\<lambda>t. type_tx t \<noteq> INCOME) xs))"
  "incomeReal_sum (fold summaryStep xs s)
     = incomeReal_sum s
       + sum_list (map amount (filter (\<lambda>t. status t = COMPLETED \<and> type_tx t = INCOME) xs))"
  "expenseReal_sum (fold summaryStep xs s)
     = expenseReal_sum s
       + sum_list (map amount (filter (\<lambda>t. status t = COMPLETED \<and> type_tx t \<noteq> INCOME) xs))"
  by (induction xs arbitrary: s; simp add: summaryStep_def Let_def)+

lemma sum_list_filter_sort_key:
  fixes g :: "'a \<Rightarrow> real" and f :: "'a \<Rightarrow> int"
  shows "sum_list (map g (filter P (sort_key f xs))) = sum_list (map g (filter P xs))"
proof -
  have "sum_list (map g (filter P ys)) = sum_mset (image_mset g (filter_mset P (mset ys)))" for ys
    by (simp flip: sum_mset_sum_list)
  then show ?thesis by simp
qed

lemma sum_currentMonthTransactions:
  "sum_list (map amount (filter P (currentMonthTransactions ts m)))
     = sum_list (map amount (filter (\<lambda>t. isSameMonth (date t) m \<and> P t) ts))"
  by (simp add: currentMonthTransactions_def sum_list_filter_sort_key conj_commute)

text \<open>
  C7: for every transaction list and every month, \<^verbatim>\<open>balanceReal\<close> is exactly
  \<^verbatim>\<open>incomeReal - expenseReal\<close> and \<^verbatim>\<open>balanceProjected\<close> is exactly the projected income
  minus the projected expense, where the projected sums range over all transactions
  dated in the month and the real sums over those among them with status
  \<^verbatim>\<open>COMPLETED\<close>; every transaction that is not an income counts as an expense. The
  summary is a function of the list and the month, so computing it twice gives the same
  result. Amounts being reals in the model, the order in which the sorted view is summed
  does not matter.
\<close>

theorem monthly_summary:
  "balanceReal (summary ts m) = incomeReal (summary ts m) - expenseReal (summary ts m)
   \<and> incomeReal (summary ts m)
       = sum_list (map amount (filter (\<lambda>t. isSameMonth (date t) m
                                            \<and> status t = COMPLETED \<and> type_tx t = INCOME) ts))
   \<and> expenseReal (summary ts m)
       = sum_list (map amount (filter (\<lambda>t. isSameMonth (date t) m
                                            \<and> status t = COMPLETED \<and> type_tx t \<noteq> INCOME) ts))
   \<and> balanceProjected (summary ts m)
       = sum_list (map amount (filter (\<lambda>t. isSameMonth (date t) m \<and> type_tx t = INCOME) ts))
         - sum_list (map amount (filter (\<lambda>t. isSameMonth (date t) m \<and> type_tx t \<noteq> INCOME) ts))
   \<and> (let first = summary ts m; second = summary ts m in second = first)"
  by (simp add: summary_def summarySums_def Let_def fold_summaryStep sum_currentMonthTransactions)

theorem monthly_summary_witness:
  "summary (transactions exampleLedger) (localMidnight 2024 1 1)
     = \<lparr>incomeReal = 900, expenseReal = 0, balanceReal = 900, balanceProjected = 600\<rparr>"
proof -
  let ?ts = "transactions exampleLedger"
  let ?m = "localMidnight 2024 1 1"
  have s: "sum_list (map amount (filter (\<lambda>t. isSameMonth (date t) ?m
                                            \<and> status t = COMPLETED \<and> type_tx t = INCOME) ?ts)) = 900"
    "sum_list (map amount (filter (\<lambda>t. isSameMonth (date t) ?m
                                            \<and> status t = COMPLETED \<and> type_tx t \<noteq> INCOME) ?ts)) = 0"
    "sum_list (map amount (filter (\<lambda>t. isSameMonth (date t) ?m \<and> type_tx t = INCOME) ?ts)) = 900"
    "sum_list (map amount (filter (\<lambda>t. isSameMonth (date t) ?m \<and> type_tx t \<noteq> INCOME) ?ts)) = 300"
    by code_simp+
  have "incomeReal (summary ?ts ?m) = 900 \<and> expenseReal (summary ?ts ?m) = 0
      \<and> balanceReal (summary ?ts ?m) = 900 \<and> balanceProjected (summary ?ts ?m) = 600"
    using monthly_summary [of ?ts ?m] unfolding s by simp
  then show ?thesis
    by (cases "summary ?ts ?m") simp
qed

lemma toggled_flips: "toggled s \<noteq> s" "toggled (toggled s) = s"
  "toggled PENDING = COMPLETED" "toggled COMPLETED = PENDING"
  by (cases s; simp add: toggled_def)+

text \<open>
  C8: toggling the status of the transactions with a given id turns \<^verbatim>\<open>PENDING\<close> into
  \<^verbatim>\<open>COMPLETED\<close> and \<^verbatim>\<open>COMPLETED\<close> into \<^verbatim>\<open>PENDING\<close> on them and changes no other field of
  theirs; every transaction with another id, sibling installments included, is left as
  it was, the ledger keeps its length and order, and cards, accounts and categories are
  untouched.
\<close>

theorem toggle_status_frame:
  "length (transactions (handleToggleStatus i prev)) = length (transactions prev)
   \<and> (\<forall>k < length (transactions prev).
        (id_tx (transactions prev ! k) = i \<longrightarrow>
           transactions (handleToggleStatus i prev) ! k
             = (transactions prev ! k)\<lparr>status := toggled (status (transactions prev ! k))\<rparr>
           \<and> status (transactions (handleToggleStatus i prev) ! k) \<noteq> status (transactions prev ! k))
        \<and> (id_tx (transactions prev ! k) \<noteq> i \<longrightarrow>
           transactions (handleToggleStatus i prev) ! k = transactions prev ! k))
   \<and> toggled PENDING = COMPLETED \<and> toggled COMPLETED = PENDING
   \<and> cards (handleToggleStatus i prev) = cards prev
   \<and> accounts (handleToggleStatus i prev) = accounts prev
   \<and> categories (handleToggleStatus i prev) = categories prev"
  by (simp add: handleToggleStatus_def toggled_flips)

theorem toggle_status_frame_witness:
  "status (transactions (handleToggleStatus (exampleIds 0) exampleLedger) ! 0) = COMPLETED
   \<and> transactions (handleToggleStatus (exampleIds 0) exampleLedger) ! 1
     = transactions exampleLedger ! 1"
proof -
  let ?ts = "transactions exampleLedger"
  have ids: "map id_tx ?ts = [exampleIds 0, exampleIds 2, exampleIds 3, CHR ''v'' # exampleIds 0]"
    by code_simp
  have st: "map status ?ts = [PENDING, PENDING, PENDING, COMPLETED]"
    by code_simp
  have len: "length ?ts = 4"
    using arg_cong [OF ids, of length] by simp
  have i0: "id_tx (?ts ! 0) = exampleIds 0"
    using arg_cong [OF ids, of "\<lambda>l. l ! 0"] len by simp
  have i1: "id_tx (?ts ! 1) \<noteq> exampleIds 0"
    using arg_cong [OF ids, of "\<lambda>l. l ! 1"] len by (simp add: exampleIds_def)
  have s0: "status (?ts ! 0) = PENDING"
    using arg_cong [OF st, of "\<lambda>l. l ! 0"] len by simp
  note inst = toggle_status_frame [of "exampleIds 0" exampleLedger,
      THEN conjunct2, THEN conjunct1, rule_format]
  have "transactions (handleToggleStatus (exampleIds 0) exampleLedger) ! 0
          = (?ts ! 0)\<lparr>status := toggled (status (?ts ! 0))\<rparr>"
    using inst [of 0] len i0 by simp
  then have "status (transactions (handleToggleStatus (exampleIds 0) exampleLedger) ! 0) = COMPLETED"
    by (simp add: s0 toggled_def)
  moreover have "transactions (handleToggleStatus (exampleIds 0) exampleLedger) ! 1 = ?ts ! 1"
    using inst [of 1] len i1 by simp
  ultimately show ?thesis by simp
qed

end
